theory Spec2Isabelle
  imports Complex_Main "HOL-Library.Word"
begin

section \<open>JavaScript values used by app.js\<close>

subsection \<open>Strings\<close>

text \<open>
  A JavaScript string is a sequence of 16-bit code units. \<open>utf16\<close> writes an ASCII
  literal of the source as such a sequence.
\<close>

type_synonym jsstring = "16 word list"

definition utf16 :: "string \<Rightarrow> jsstring" where
  "utf16 s = map (\<lambda>c. of_nat (of_char c)) s"

text \<open>
  \<open>String.prototype.trim\<close> removes white space and line terminators from both ends:
  TAB, LF, VT, FF, CR, SPACE, NBSP, U+1680, U+2000..U+200A, U+2028, U+2029, U+202F,
  U+205F, U+3000 and U+FEFF.
\<close>

definition isWhiteSpace :: "16 word \<Rightarrow> bool" where
  "isWhiteSpace c \<longleftrightarrow>
     c = 0x9 \<or> c = 0xA \<or> c = 0xB \<or> c = 0xC \<or> c = 0xD \<or> c = 0x20 \<or> c = 0xA0 \<or>
     c = 0x1680 \<or> (0x2000 \<le> c \<and> c \<le> 0x200A) \<or> c = 0x2028 \<or> c = 0x2029 \<or>
     c = 0x202F \<or> c = 0x205F \<or> c = 0x3000 \<or> c = 0xFEFF"

definition trim :: "jsstring \<Rightarrow> jsstring" where
  "trim s = rev (dropWhile isWhiteSpace (rev (dropWhile isWhiteSpace s)))"

text \<open>\<open>s.includes(pat)\<close>: \<open>pat\<close> occurs in \<open>s\<close> as a contiguous run of code units.\<close>

fun str_includes :: "jsstring \<Rightarrow> jsstring \<Rightarrow> bool" where
  "str_includes [] pat = (pat = [])"
| "str_includes (c # cs) pat = (take (length pat) (c # cs) = pat \<or> str_includes cs pat)"

text \<open>
  Truthiness of a value that is a string, \<open>undefined\<close> or \<open>null\<close> (\<open>None\<close>): only a
  non-empty string is truthy.
\<close>

definition truthy :: "jsstring option \<Rightarrow> bool" where
  "truthy v = (case v of None \<Rightarrow> False | Some s \<Rightarrow> s \<noteq> [])"

text \<open>
  \<open>path.basename\<close> (POSIX): trailing slashes are dropped, then the part after the last
  slash is taken.
\<close>

definition basename :: "jsstring \<Rightarrow> jsstring" where
  "basename p =
     (let q = dropWhile (\<lambda>c. c = 0x2F) (rev p)
      in rev (takeWhile (\<lambda>c. c \<noteq> 0x2F) q))"

subsection \<open>Numbers\<close>

text \<open>
  A JavaScript number is an IEEE 754 double: NaN, an infinity, or a finite binary fraction,
  kept here as a rational. The two zeros are one value: \<open>===\<close> does not tell them apart.
\<close>

datatype jsnum = NaN | PosInfinity | NegInfinity | Finite rat

definition roundTiesToEven :: "rat \<Rightarrow> int" where
  "roundTiesToEven q =
     (let f = \<lfloor>q\<rfloor>; d = q - of_int f
      in if d < 1 / 2 then f else if 1 / 2 < d then f + 1
         else if even f then f else f + 1)"

fun bitLength :: "nat \<Rightarrow> nat" where
  "bitLength n = (if n = 0 then 0 else Suc (bitLength (n div 2)))"

declare bitLength.simps [simp del]

text \<open>For \<open>0 < q\<close>, \<open>binade q\<close> is the exponent \<open>e\<close> with \<open>2 ^ e \<le> q < 2 ^ (e + 1)\<close>.\<close>

definition binade :: "rat \<Rightarrow> int" where
  "binade q =
     (let (a, b) = quotient_of q;
          d = int (bitLength (nat a)) - int (bitLength (nat b))
      in if q < 2 powi d then d - 1 else d)"

text \<open>
  The double nearest to a rational (round to nearest, ties to even): 53 significant bits,
  exponents from -1022 (below that the spacing stays \<open>2 ^ -1074\<close>), and an infinity once
  the rounded value reaches \<open>2 ^ 1024\<close>.
\<close>

definition toDouble :: "rat \<Rightarrow> jsnum" where
  "toDouble q =
     (if q = 0 then Finite 0
      else let a = \<bar>q\<bar>;
               e = max (binade a) (- 1022);
               ulp = 2 powi (e - 52);
               r = of_int (roundTiesToEven (a / ulp)) * ulp
           in if 2 powi 1024 \<le> r then (if 0 < q then PosInfinity else NegInfinity)
              else Finite (sgn q * r))"

text \<open>
  \<open>Number(s)\<close> for a string \<open>s\<close> follows the grammar \<open>StringNumericLiteral\<close>: white space
  around the literal is dropped and the empty text is 0; the literal is \<open>Infinity\<close> or a
  decimal literal, each with an optional sign, or an unsigned binary, octal or hexadecimal
  integer; anything else is NaN.
\<close>

definition digitValue :: "16 word \<Rightarrow> nat option" where
  "digitValue c =
     (if 0x30 \<le> c \<and> c \<le> 0x39 then Some (unat c - 48)
      else if 0x61 \<le> c \<and> c \<le> 0x66 then Some (unat c - 87)
      else if 0x41 \<le> c \<and> c \<le> 0x46 then Some (unat c - 55)
      else None)"

fun digitsMV :: "nat \<Rightarrow> nat \<Rightarrow> jsstring \<Rightarrow> nat option" where
  "digitsMV b acc [] = Some acc"
| "digitsMV b acc (c # cs) =
     (case digitValue c of
        None \<Rightarrow> None
      | Some d \<Rightarrow> if d < b then digitsMV b (acc * b + d) cs else None)"

definition digits :: "nat \<Rightarrow> jsstring \<Rightarrow> nat option" where
  "digits b cs = (if cs = [] then None else digitsMV b 0 cs)"

definition signedInteger :: "jsstring \<Rightarrow> int option" where
  "signedInteger s =
     (case s of
        [] \<Rightarrow> None
      | c # cs \<Rightarrow>
          if c = 0x2B then map_option int (digits 10 cs)
          else if c = 0x2D then map_option (\<lambda>n. - int n) (digits 10 cs)
          else map_option int (digits 10 s))"

definition isExponentIndicator :: "16 word \<Rightarrow> bool" where
  "isExponentIndicator c \<longleftrightarrow> c = 0x65 \<or> c = 0x45"

text \<open>
  \<open>StrUnsignedDecimalLiteral\<close> without \<open>Infinity\<close>: digits with an optional point and an
  optional exponent part, at least one digit before the exponent. The result is the
  mathematical value of the literal.
\<close>

definition strUnsignedDecimalLiteral :: "jsstring \<Rightarrow> rat option" where
  "strUnsignedDecimalLiteral s =
     (let m = takeWhile (\<lambda>c. \<not> isExponentIndicator c) s;
          x = dropWhile (\<lambda>c. \<not> isExponentIndicator c) s;
          ip = takeWhile (\<lambda>c. c \<noteq> 0x2E) m;
          fp = drop 1 (dropWhile (\<lambda>c. c \<noteq> 0x2E) m)
      in case (if x = [] then Some 0 else signedInteger (tl x)) of
           None \<Rightarrow> None
         | Some ex \<Rightarrow>
             if ip @ fp = [] then None
             else (case digitsMV 10 0 (ip @ fp) of
                     None \<Rightarrow> None
                   | Some n \<Rightarrow> Some (of_int (int n) * 10 powi (ex - int (length fp)))))"

definition strDecimalLiteral :: "jsstring \<Rightarrow> jsnum option" where
  "strDecimalLiteral s =
     (let neg = (take 1 s = [0x2D]);
          u = (if take 1 s = [0x2B] \<or> take 1 s = [0x2D] then tl s else s)
      in if u = utf16 ''Infinity'' then Some (if neg then NegInfinity else PosInfinity)
         else map_option (\<lambda>q. toDouble (if neg then - q else q))
                (strUnsignedDecimalLiteral u))"

definition nonDecimalIntegerLiteral :: "jsstring \<Rightarrow> nat option" where
  "nonDecimalIntegerLiteral s =
     (case s of
        z # p # ds \<Rightarrow>
          if z \<noteq> 0x30 then None
          else if p = 0x62 \<or> p = 0x42 then digits 2 ds
          else if p = 0x6F \<or> p = 0x4F then digits 8 ds
          else if p = 0x78 \<or> p = 0x58 then digits 16 ds
          else None
      | _ \<Rightarrow> None)"

definition strNumericLiteral :: "jsstring \<Rightarrow> jsnum option" where
  "strNumericLiteral s =
     (case nonDecimalIntegerLiteral s of
        Some n \<Rightarrow> Some (toDouble (of_int (int n)))
      | None \<Rightarrow> strDecimalLiteral s)"

definition stringToNumber :: "jsstring \<Rightarrow> jsnum" where
  "stringToNumber s =
     (let t = trim s
      in if t = [] then Finite 0
         else (case strNumericLiteral t of None \<Rightarrow> NaN | Some v \<Rightarrow> v))"

text \<open>\<open>Number(v)\<close> for a value that is a string or \<open>undefined\<close> (\<open>None\<close>).\<close>

definition Number :: "jsstring option \<Rightarrow> jsnum" where
  "Number v = (case v of None \<Rightarrow> NaN | Some s \<Rightarrow> stringToNumber s)"

text \<open>
  \<open>String(n)\<close> for an integral number: the decimal digits, with a minus sign when
  negative (the form JavaScript prints below \<open>10 ^ 21\<close>).
\<close>

fun decimalDigits :: "nat \<Rightarrow> jsstring" where
  "decimalDigits n =
     (if n < 10 then [of_nat (48 + n)]
      else decimalDigits (n div 10) @ [of_nat (48 + n mod 10)])"

declare decimalDigits.simps [simp del]

definition numberToString :: "int \<Rightarrow> jsstring" where
  "numberToString n =
     (if n < 0 then 0x2D # decimalDigits (nat (- n)) else decimalDigits (nat n))"

section \<open>The inventory and the cache directory\<close>

text \<open>
  An element of \<open>inventory\<close>, with the fields the source documents. \<open>id\<close> is a number
  that \<open>generateId\<close> produced: an integer, which a double holds exactly below \<open>2 ^ 53\<close>.
  \<open>photoFilename\<close> is a string or \<open>null\<close> (\<open>None\<close>).
\<close>

record item =
  item_id :: int
  inventory_name :: jsstring
  description :: jsstring
  photoFilename :: "jsstring option"

type_synonym blob = "8 word list"

text \<open>The calls made to the file system, as a history (oldest first).\<close>

datatype fs_call =
    WriteFile "item list"
  | StoreUpload jsstring
  | ReadFile jsstring
  | Unlink jsstring

text \<open>
  The state of the process and of its cache directory: the array \<open>inventory\<close>, the file
  \<open>INVENTORY_FILE\<close> (\<open>None\<close> when it is absent or does not hold the JSON text of an item
  array, \<open>Some xs\<close> when it holds the text \<open>JSON.stringify\<close> gives for \<open>xs\<close>), and the
  files of \<open>PHOTOS_DIR\<close> by name.
\<close>

record state =
  inventory :: "item list"
  INVENTORY_FILE :: "item list option"
  PHOTOS_DIR :: "jsstring \<rightharpoonup> blob"
  fs_calls :: "fs_call list"

text \<open>
  What the file system does during one request is an input: \<open>fs.writeFile\<close> fulfils, or
  rejects and leaves some content behind; \<open>fs.unlink\<close> and \<open>fs.readFile\<close> of an existing
  file may reject for a reason other than ENOENT.
\<close>

datatype write_result = WriteFulfils | WriteRejects "item list option"

record env =
  write_result :: write_result
  unlink_fails :: bool
  read_fails :: bool

definition saveInventory :: "env \<Rightarrow> state \<Rightarrow> bool \<times> state" where
  "saveInventory e s =
     (let s' = s\<lparr>fs_calls := fs_calls s @ [WriteFile (inventory s)]\<rparr>
      in case write_result e of
           WriteFulfils \<Rightarrow> (True, s'\<lparr>INVENTORY_FILE := Some (inventory s)\<rparr>)
         | WriteRejects left \<Rightarrow> (False, s'\<lparr>INVENTORY_FILE := left\<rparr>))"

text \<open>
  \<open>Math.max\<close> of a non-empty argument list is its greatest element. The engine's limit on
  the number of arguments of a spread call is not modelled.
\<close>

definition generateId :: "item list \<Rightarrow> int" where
  "generateId items =
     (if length items = 0 then 1 else Max (set (map item_id items)) + 1)"

definition sameId :: "jsnum \<Rightarrow> item \<Rightarrow> bool" where
  "sameId n it \<longleftrightarrow> Finite (of_int (item_id it)) = n"

definition findItemById :: "jsnum \<Rightarrow> item list \<Rightarrow> item option" where
  "findItemById n items = find (sameId n) items"

fun findIndex :: "('a \<Rightarrow> bool) \<Rightarrow> 'a list \<Rightarrow> nat option" where
  "findIndex P [] = None"
| "findIndex P (x # xs) = (if P x then Some 0 else map_option Suc (findIndex P xs))"

text \<open>
  \<open>find\<close> returns a reference to the first matching element; an assignment to a field
  of that object changes the array at that position.
\<close>

fun assignFound :: "('a \<Rightarrow> bool) \<Rightarrow> ('a \<Rightarrow> 'a) \<Rightarrow> 'a list \<Rightarrow> 'a list" where
  "assignFound P f [] = []"
| "assignFound P f (x # xs) = (if P x then f x # xs else x # assignFound P f xs)"

definition buildPhotoUrl :: "int \<Rightarrow> jsstring" where
  "buildPhotoUrl n = utf16 ''/inventory/'' @ numberToString n @ utf16 ''/photo''"

section \<open>Responses\<close>

datatype item_json = ItemJson int jsstring jsstring "jsstring option"

datatype body =
    Item item_json
  | Items "item_json list"
  | Error string
  | Message string
  | Image blob

text \<open>
  A handler ends with a response, or (\<open>Unhandled\<close>) its promise rejects and it sends none.
\<close>

datatype outcome = Response nat body | Unhandled

definition toJson :: "item \<Rightarrow> item_json" where
  "toJson it =
     ItemJson (item_id it) (inventory_name it) (description it)
       (if truthy (photoFilename it) then Some (buildPhotoUrl (item_id it)) else None)"

section \<open>Route handlers\<close>

text \<open>
  A handler is a function from the state before a request to its outcome and the state
  after it. What a handler does to \<open>inventory\<close> happens before its first \<open>await\<close>, so on
  the single-threaded runtime no other request runs in between; how the file writes of
  concurrent requests interleave is not modelled. The fields of a request body are strings
  or \<open>undefined\<close>: arrays and objects of the extended form syntax and JSON values that are
  not strings are left out, as are the routing, the 405 middleware and the final 404.
\<close>

text \<open>
  \<open>upload.single('photo')\<close> runs before the handler: a file part is written into
  \<open>PHOTOS_DIR\<close> under the name the \<open>filename\<close> callback made from the clock, a random
  number and the extension, and becomes \<open>req.file\<close>.
\<close>

record upload =
  filename :: jsstring
  content :: blob

definition upload_single :: "upload option \<Rightarrow> state \<Rightarrow> state" where
  "upload_single file s =
     (case file of
        None \<Rightarrow> s
      | Some u \<Rightarrow>
          s\<lparr>PHOTOS_DIR := (PHOTOS_DIR s)(filename u \<mapsto> content u),
            fs_calls := fs_calls s @ [StoreUpload (filename u)]\<rparr>)"

text \<open>
  \<open>POST /register\<close>. The body fields are strings or \<open>undefined\<close> (\<open>None\<close>). The
  \<open>try\<close>/\<open>catch\<close> turns a rejected \<open>saveInventory\<close> into a 500.
\<close>

definition post_register ::
  "env \<Rightarrow> jsstring option \<Rightarrow> jsstring option \<Rightarrow> upload option \<Rightarrow> state \<Rightarrow> outcome \<times> state"
where
  "post_register e name descr file s0 =
     (let s = upload_single file s0
      in case name of
           None \<Rightarrow> (Response 400 (Error ''inventory_name is required''), s)
         | Some n \<Rightarrow>
             if n = [] \<or> trim n = []
             then (Response 400 (Error ''inventory_name is required''), s)
             else
               let it = \<lparr>item_id = generateId (inventory s),
                         inventory_name = trim n,
                         description = trim (case descr of None \<Rightarrow> [] | Some d \<Rightarrow> d),
                         photoFilename = map_option (\<lambda>u. basename (filename u)) file\<rparr>;
                   (ok, s') = saveInventory e (s\<lparr>inventory := inventory s @ [it]\<rparr>)
               in if ok then (Response 201 (Item (toJson it)), s')
                  else (Response 500 (Error ''Internal Server Error''), s'))"

text \<open>\<open>GET /inventory\<close>\<close>

definition get_inventory :: "state \<Rightarrow> outcome \<times> state" where
  "get_inventory s = (Response 200 (Items (map toJson (inventory s))), s)"

text \<open>\<open>GET /inventory/:id\<close>\<close>

definition get_inventory_id :: "jsstring \<Rightarrow> state \<Rightarrow> outcome \<times> state" where
  "get_inventory_id id_param s =
     (let n = Number (Some id_param)
      in if n = NaN then (Response 400 (Error ''Invalid id''), s)
         else (case findItemById n (inventory s) of
                 None \<Rightarrow> (Response 404 (Error ''Item not found''), s)
               | Some it \<Rightarrow> (Response 200 (Item (toJson it)), s)))"

text \<open>
  \<open>PUT /inventory/:id\<close>. A body field is \<open>undefined\<close> (\<open>None\<close>) or a string, for which
  \<open>String\<close> is the identity. Outside the \<open>try\<close> of \<open>/register\<close>, a rejected
  \<open>saveInventory\<close> rejects the handler.
\<close>

definition put_inventory_id ::
  "env \<Rightarrow> jsstring \<Rightarrow> jsstring option \<Rightarrow> jsstring option \<Rightarrow> state \<Rightarrow> outcome \<times> state"
where
  "put_inventory_id e id_param name descr s =
     (let n = Number (Some id_param)
      in if n = NaN then (Response 400 (Error ''Invalid id''), s)
         else (case findItemById n (inventory s) of
                 None \<Rightarrow> (Response 404 (Error ''Item not found''), s)
               | Some it \<Rightarrow>
                   let upd = (\<lambda>x. x\<lparr>inventory_name :=
                                        (case name of None \<Rightarrow> inventory_name x | Some v \<Rightarrow> trim v),
                                      description :=
                                        (case descr of None \<Rightarrow> description x | Some v \<Rightarrow> trim v)\<rparr>);
                       (ok, s') = saveInventory e
                                    (s\<lparr>inventory := assignFound (sameId n) upd (inventory s)\<rparr>)
                   in if ok then (Response 200 (Item (toJson (upd it))), s')
                      else (Unhandled, s')))"

text \<open>\<open>GET /inventory/:id/photo\<close>\<close>

definition get_inventory_id_photo :: "env \<Rightarrow> jsstring \<Rightarrow> state \<Rightarrow> outcome \<times> state" where
  "get_inventory_id_photo e id_param s =
     (let n = Number (Some id_param)
      in if n = NaN then (Response 400 (Error ''Invalid id''), s)
         else (case findItemById n (inventory s) of
                 None \<Rightarrow> (Response 404 (Error ''Photo not found''), s)
               | Some it \<Rightarrow>
                   (case photoFilename it of
                      None \<Rightarrow> (Response 404 (Error ''Photo not found''), s)
                    | Some f \<Rightarrow>
                        if f = [] then (Response 404 (Error ''Photo not found''), s)
                        else
                          let s' = s\<lparr>fs_calls := fs_calls s @ [ReadFile f]\<rparr>
                          in (case PHOTOS_DIR s f of
                                None \<Rightarrow> (Response 404 (Error ''Photo not found''), s')
                              | Some data \<Rightarrow>
                                  if read_fails e
                                  then (Response 500 (Error ''Internal Server Error''), s')
                                  else (Response 200 (Image data), s')))))"

text \<open>\<open>PUT /inventory/:id/photo\<close>, after \<open>upload.single('photo')\<close>.\<close>

definition put_inventory_id_photo ::
  "env \<Rightarrow> jsstring \<Rightarrow> upload option \<Rightarrow> state \<Rightarrow> outcome \<times> state"
where
  "put_inventory_id_photo e id_param file s0 =
     (let s = upload_single file s0;
          n = Number (Some id_param)
      in if n = NaN then (Response 400 (Error ''Invalid id''), s)
         else (case findItemById n (inventory s) of
                 None \<Rightarrow> (Response 404 (Error ''Item not found''), s)
               | Some it \<Rightarrow>
                   (case file of
                      None \<Rightarrow> (Response 400 (Error ''photo file is required''), s)
                    | Some u \<Rightarrow>
                        let upd = (\<lambda>x. x\<lparr>photoFilename := Some (basename (filename u))\<rparr>);
                            (ok, s') = saveInventory e
                                         (s\<lparr>inventory := assignFound (sameId n) upd (inventory s)\<rparr>)
                        in if ok then (Response 200 (Item (toJson (upd it))), s')
                           else (Unhandled, s'))))"

text \<open>
  \<open>fs.unlink\<close> inside \<open>try\<close>/\<open>catch\<close>: the file is removed when it is there and the call
  does not fail; every error is ignored.
\<close>

definition unlink_ignoring_errors :: "env \<Rightarrow> jsstring \<Rightarrow> state \<Rightarrow> state" where
  "unlink_ignoring_errors e f s =
     (let s' = s\<lparr>fs_calls := fs_calls s @ [Unlink f]\<rparr>
      in if PHOTOS_DIR s f \<noteq> None \<and> \<not> unlink_fails e
         then s'\<lparr>PHOTOS_DIR := (PHOTOS_DIR s)(f := None)\<rparr>
         else s')"

text \<open>\<open>DELETE /inventory/:id\<close>: \<open>splice(index, 1)\<close> removes the element at \<open>index\<close>.\<close>

definition delete_inventory_id :: "env \<Rightarrow> jsstring \<Rightarrow> state \<Rightarrow> outcome \<times> state" where
  "delete_inventory_id e id_param s =
     (let n = Number (Some id_param)
      in if n = NaN then (Response 400 (Error ''Invalid id''), s)
         else (case findIndex (sameId n) (inventory s) of
                 None \<Rightarrow> (Response 404 (Error ''Item not found''), s)
               | Some index \<Rightarrow>
                   let removed = inventory s ! index;
                       (ok, s1) = saveInventory e
                                    (s\<lparr>inventory := take index (inventory s)
                                                       @ drop (Suc index) (inventory s)\<rparr>)
                   in if \<not> ok then (Unhandled, s1)
                      else (Response 200 (Message ''Item deleted''),
                            (case photoFilename removed of
                               None \<Rightarrow> s1
                             | Some f \<Rightarrow> if f = [] then s1 else unlink_ignoring_errors e f s1))))"

text \<open>
  \<open>POST /search\<close>. The form fields \<open>id\<close> and \<open>has_photo\<close> are strings or \<open>undefined\<close>.
  \<open>linkText\<close> is the text the handler appends for an item.
\<close>

definition linkText :: "item \<Rightarrow> jsstring" where
  "linkText it = utf16 '' [Photo: '' @ buildPhotoUrl (item_id it) @ utf16 '']''"

definition post_search ::
  "env \<Rightarrow> jsstring option \<Rightarrow> jsstring option \<Rightarrow> state \<Rightarrow> outcome \<times> state"
where
  "post_search e id_field hasPhotoFlag s =
     (let n = Number id_field
      in if n = NaN then (Response 400 (Error ''Invalid id''), s)
         else (case findItemById n (inventory s) of
                 None \<Rightarrow> (Response 404 (Error ''Item not found''), s)
               | Some it \<Rightarrow>
                   if truthy hasPhotoFlag \<and> truthy (photoFilename it)
                   then
                     if \<not> str_includes (description it) (linkText it)
                     then
                       let upd = (\<lambda>x. x\<lparr>description := description x @ linkText it\<rparr>);
                           (ok, s') = saveInventory e
                                        (s\<lparr>inventory := assignFound (sameId n) upd (inventory s)\<rparr>)
                       in if ok then (Response 200 (Item (toJson (upd it))), s')
                          else (Unhandled, s')
                     else (Response 200 (Item (toJson it)), s)
                   else (Response 200 (Item (toJson it)), s)))"

section \<open>The service as a state machine\<close>

datatype request =
    Register env "jsstring option" "jsstring option" "upload option"
  | ListAll
  | Get jsstring
  | Update env jsstring "jsstring option" "jsstring option"
  | GetPhoto env jsstring
  | ReplacePhoto env jsstring "upload option"
  | Delete env jsstring
  | Search env "jsstring option" "jsstring option"

fun handle :: "request \<Rightarrow> state \<Rightarrow> outcome \<times> state" where
  "handle (Register e name descr file) s = post_register e name descr file s"
| "handle ListAll s = get_inventory s"
| "handle (Get i) s = get_inventory_id i s"
| "handle (Update e i name descr) s = put_inventory_id e i name descr s"
| "handle (GetPhoto e i) s = get_inventory_id_photo e i s"
| "handle (ReplacePhoto e i file) s = put_inventory_id_photo e i file s"
| "handle (Delete e i) s = delete_inventory_id e i s"
| "handle (Search e i flag) s = post_search e i flag s"

text \<open>
  Requests handled one after the other; the outcomes are returned in order with the last
  state.
\<close>

fun run :: "request list \<Rightarrow> state \<Rightarrow> outcome list \<times> state" where
  "run [] s = ([], s)"
| "run (r # rs) s =
     (let (out, s1) = handle r s; (outs, s2) = run rs s1 in (out # outs, s2))"

text \<open>
  The state after \<open>start\<close> on a fresh cache directory: \<open>loadInventory\<close> finds no file,
  starts from the empty array and saves it. The states \<open>reachable\<close> are those of one
  process lifetime that began there.
\<close>

definition fresh :: state where
  "fresh = \<lparr>inventory = [], INVENTORY_FILE = Some [], PHOTOS_DIR = Map.empty,
             fs_calls = [WriteFile []]\<rparr>"

inductive reachable :: "state \<Rightarrow> bool" where
  reachable_fresh: "reachable fresh"
| reachable_handle: "reachable s \<Longrightarrow> reachable (snd (handle r s))"

section \<open>Vocabulary of the properties\<close>

text \<open>A file system on which every call of one request succeeds.\<close>

definition fs_ok :: env where
  "fs_ok = \<lparr>write_result = WriteFulfils, unlink_fails = False, read_fails = False\<rparr>"

text \<open>A file system on which \<open>fs.writeFile\<close> rejects and leaves no readable file.\<close>

definition fs_write_rejected :: env where
  "fs_write_rejected =
     \<lparr>write_result = WriteRejects None, unlink_fails = False, read_fails = False\<rparr>"




fun is_delete :: "request \<Rightarrow> bool" where
  "is_delete (Delete e i) = True"
| "is_delete r = False"

fun register_saved :: "request \<Rightarrow> bool" where
  "register_saved (Register e name descr file) = (write_result e = WriteFulfils)"
| "register_saved r = True"

text \<open>The id in the body of a 201 response.\<close>

fun created_id :: "outcome \<Rightarrow> int option" where
  "created_id (Response code (Item (ItemJson i n d p))) = (if code = 201 then Some i else None)"
| "created_id out = None"


text \<open>The ids of an array are pairwise different and positive.\<close>

definition ids_ok :: "item list \<Rightarrow> bool" where
  "ids_ok items \<longleftrightarrow> distinct (map item_id items) \<and> list_all (\<lambda>i. 0 < i) (map item_id items)"

text \<open>
  A request stores no upload under the name \<open>f\<close>, nor under a name whose base name is \<open>f\<close>.
\<close>

fun avoids :: "jsstring \<Rightarrow> request \<Rightarrow> bool" where
  "avoids f (Register e name descr upl) =
     (case upl of None \<Rightarrow> True | Some u \<Rightarrow> filename u \<noteq> f \<and> basename (filename u) \<noteq> f)"
| "avoids f (ReplacePhoto e i upl) =
     (case upl of None \<Rightarrow> True | Some u \<Rightarrow> filename u \<noteq> f \<and> basename (filename u) \<noteq> f)"
| "avoids f r = True"

text \<open>A file of \<open>PHOTOS_DIR\<close> with content \<open>c\<close> that no item refers to.\<close>

definition orphan :: "jsstring \<Rightarrow> blob \<Rightarrow> state \<Rightarrow> bool" where
  "orphan f c s \<longleftrightarrow>
     PHOTOS_DIR s f = Some c \<and> list_all (\<lambda>it. photoFilename it \<noteq> Some f) (inventory s)"

text \<open>Example states: the fresh store after one registration, without and with a photo.\<close>

definition laptop :: item where
  "laptop = \<lparr>item_id = 1, inventory_name = utf16 ''Laptop'', description = utf16 ''Dell'',
              photoFilename = None\<rparr>"

definition one_laptop :: state where
  "one_laptop =
     snd (handle (Register fs_ok (Some (utf16 ''Laptop'')) (Some (utf16 ''Dell'')) None) fresh)"

definition photo_upload :: upload where
  "photo_upload = \<lparr>filename = utf16 ''photo_1700000000000-42.jpg'', content = [0xFF, 0xD8]\<rparr>"

definition camera :: item where
  "camera = \<lparr>item_id = 1, inventory_name = utf16 ''Camera'', description = [],
              photoFilename = Some (utf16 ''photo_1700000000000-42.jpg'')\<rparr>"

definition one_camera :: state where
  "one_camera =
     snd (handle (Register fs_ok (Some (utf16 ''Camera'')) None (Some photo_upload)) fresh)"

definition other_upload :: upload where
  "other_upload = \<lparr>filename = utf16 ''photo_1700000000001-7.png'', content = [0x89, 0x50]\<rparr>"

text \<open>
  Three registrations, then the deletion of item 2: the store is left with the ids 1 and 3.
\<close>

definition gap_store :: state where
  "gap_store =
     snd (run [Register fs_ok (Some (utf16 ''Laptop'')) None None,
               Register fs_ok (Some (utf16 ''Camera'')) None None,
               Register fs_ok (Some (utf16 ''Phone'')) None None,
               Delete fs_ok (utf16 ''2'')] fresh)"

section \<open>Lists, ids and strings\<close>

lemma findIndex_Some:
  "findIndex P xs = Some i \<Longrightarrow> i < length xs \<and> P (xs ! i) \<and> find P xs = Some (xs ! i)"
  by (induction xs arbitrary: i) (auto split: if_splits)

lemma find_findIndex:
  "find P xs = Some x \<Longrightarrow> \<exists>i. findIndex P xs = Some i \<and> i < length xs \<and> xs ! i = x"
  by (induction xs) (auto split: if_splits)

lemma find_Some_set: "find P xs = Some x \<Longrightarrow> x \<in> set xs \<and> P x"
  by (induction xs) (auto split: if_splits)

lemma assignFound_update:
  "findIndex P xs = Some i \<Longrightarrow> assignFound P f xs = xs[i := f (xs ! i)]"
  by (induction xs arbitrary: i) (auto split: if_splits)

lemma map_assignFound:
  "(\<And>x. g (f x) = g x) \<Longrightarrow> map g (assignFound P f xs) = map g xs"
  by (induction xs) auto

lemma find_assignFound:
  "find P xs = Some x \<Longrightarrow> P (f x) \<Longrightarrow> find P (assignFound P f xs) = Some (f x)"
  by (induction xs) (auto split: if_splits)

lemma sameId_unique: "sameId n x \<Longrightarrow> sameId n y \<Longrightarrow> item_id x = item_id y"
  by (auto simp: sameId_def)

lemma findItemById_not_NaN: "findItemById n xs = Some x \<Longrightarrow> n \<noteq> NaN"
  by (auto simp: findItemById_def sameId_def dest: find_Some_set)



lemma generateId_greater: "x \<in> set xs \<Longrightarrow> item_id x < generateId xs"
proof -
  assume a: "x \<in> set xs"
  then have "item_id x \<le> Max (set (map item_id xs))" by (intro Max_ge) auto
  with a show ?thesis by (auto simp: generateId_def)
qed

lemma generateId_positive:
  assumes "\<And>x. x \<in> set xs \<Longrightarrow> 0 < item_id x"
  shows "0 < generateId xs"
proof (cases xs)
  case Nil
  then show ?thesis by (simp add: generateId_def)
next
  case (Cons a list)
  then have "a \<in> set xs" by simp
  then have "0 < item_id a" "item_id a < generateId xs"
    using assms generateId_greater by blast+
  then show ?thesis by simp
qed

lemmas handler_defs =
  post_register_def put_inventory_id_def put_inventory_id_photo_def delete_inventory_id_def
  post_search_def get_inventory_def get_inventory_id_def get_inventory_id_photo_def
  saveInventory_def upload_single_def unlink_ignoring_errors_def Let_def






lemma generateId_upto:
  assumes "map item_id xs = [1..int k]"
  shows "generateId xs = int k + 1"
proof (cases k)
  case 0
  with assms show ?thesis by (simp add: generateId_def)
next
  case (Suc m)
  have "set (map item_id xs) = {1..int k}" using assms by simp
  moreover have "Max {1..int k} = int k" using Suc by (intro Max_eqI) auto
  moreover have "xs \<noteq> []" using assms Suc by (auto simp: upto.simps)
  ultimately show ?thesis by (simp add: generateId_def)
qed

lemma upto_snoc: "[1..int k + 1] = [1..int k] @ [int k + 1]"
  by (simp add: upto_rec2)

lemma post_register_ids:
  assumes "post_register e name d f s = (out, s')" and "write_result e = WriteFulfils"
  shows "map item_id (inventory s') =
           map item_id (inventory s) @ (case created_id out of None \<Rightarrow> [] | Some i \<Rightarrow> [i])"
    and "created_id out = None \<or> created_id out = Some (generateId (inventory s))"
  using assms
  by (auto simp: handler_defs toJson_def split: option.splits write_result.splits if_splits)

lemma other_handlers_ids:
  "get_inventory s = (out, s') \<Longrightarrow> map item_id (inventory s') = map item_id (inventory s) \<and> created_id out = None"
  "get_inventory_id i s = (out, s') \<Longrightarrow> map item_id (inventory s') = map item_id (inventory s) \<and> created_id out = None"
  "get_inventory_id_photo e i s = (out, s') \<Longrightarrow> map item_id (inventory s') = map item_id (inventory s) \<and> created_id out = None"
  "put_inventory_id e i name d s = (out, s') \<Longrightarrow> map item_id (inventory s') = map item_id (inventory s) \<and> created_id out = None"
  "put_inventory_id_photo e i f s = (out, s') \<Longrightarrow> map item_id (inventory s') = map item_id (inventory s) \<and> created_id out = None"
  "post_search e j flag s = (out, s') \<Longrightarrow> map item_id (inventory s') = map item_id (inventory s) \<and> created_id out = None"
  by (auto simp: handler_defs toJson_def map_assignFound
      split: option.splits write_result.splits if_splits)

lemma handle_ids:
  assumes "handle r s = (out, s')" and "\<not> is_delete r" and "register_saved r"
  shows "map item_id (inventory s') =
           map item_id (inventory s) @ (case created_id out of None \<Rightarrow> [] | Some i \<Rightarrow> [i])
         \<and> (created_id out = None \<or> created_id out = Some (generateId (inventory s)))"
  using assms
  by (cases r) (auto dest: post_register_ids other_handlers_ids)

lemma run_ids:
  assumes "run rs s = (outs, s')"
    and "\<forall>r \<in> set rs. \<not> is_delete r \<and> register_saved r"
    and "map item_id (inventory s) = [1..int k]"
  shows "map item_id (inventory s') = [1..int (k + length (List.map_filter created_id outs))]
         \<and> [1..int k] @ List.map_filter created_id outs = map item_id (inventory s')"
  using assms
proof (induction rs arbitrary: s outs k s')
  case Nil
  then show ?case by simp
next
  case (Cons r rs)
  obtain out s1 where h: "handle r s = (out, s1)" by (cases "handle r s")
  obtain outs1 s2 where t: "run rs s1 = (outs1, s2)" by (cases "run rs s1")
  from Cons.prems(1) h t have eq: "outs = out # outs1" "s' = s2" by auto
  from Cons.prems(2) have hr: "\<not> is_delete r" "register_saved r"
    and rest: "\<forall>r \<in> set rs. \<not> is_delete r \<and> register_saved r" by auto
  note step = handle_ids [OF h hr]
  show ?case
  proof (cases "created_id out")
    case None
    with step Cons.prems(3) have "map item_id (inventory s1) = [1..int k]" by simp
    from Cons.IH [OF t rest this] None eq show ?thesis
      by simp
  next
    case (Some i)
    with step Cons.prems(3) have i: "i = int k + 1"
      by (auto simp: generateId_upto)
    with step Some Cons.prems(3) have "map item_id (inventory s1) = [1..int (Suc k)]"
      using upto_snoc [of k] by (simp add: add.commute)
    from Cons.IH [OF t rest this] Some eq i show ?thesis
      using upto_snoc [of k] by (simp add: add.commute)
  qed
qed

lemma findItemById_index:
  assumes "findItemById n xs = Some it"
  shows "\<exists>k. findIndex (sameId n) xs = Some k \<and> k < length xs \<and> xs ! k = it \<and> sameId n it"
  using assms find_findIndex [of "sameId n" xs it] find_Some_set [of "sameId n" xs it]
  by (auto simp: findItemById_def)

lemma put_inventory_id_found:
  assumes "findItemById (Number (Some i)) (inventory s) = Some it"
  shows "inventory (snd (put_inventory_id e i name descr s))
           = assignFound (sameId (Number (Some i)))
               (\<lambda>x. x\<lparr>inventory_name := (case name of None \<Rightarrow> inventory_name x | Some v \<Rightarrow> trim v),
                       description := (case descr of None \<Rightarrow> description x | Some v \<Rightarrow> trim v)\<rparr>)
               (inventory s)"
    and "write_result e = WriteFulfils \<Longrightarrow> fst (put_inventory_id e i name descr s)
           = Response 200 (Item (toJson (it\<lparr>inventory_name := (case name of None \<Rightarrow> inventory_name it | Some v \<Rightarrow> trim v),
                       description := (case descr of None \<Rightarrow> description it | Some v \<Rightarrow> trim v)\<rparr>)))"
  using assms findItemById_not_NaN [OF assms]
  by (auto simp: put_inventory_id_def saveInventory_def Let_def split: write_result.splits)





subsection \<open>Ids stay distinct and positive\<close>

lemma ids_ok_append:
  assumes "ids_ok items" and "item_id it = generateId items"
  shows "ids_ok (items @ [it])"
proof -
  have "item_id it \<notin> set (map item_id items)"
  proof
    assume "item_id it \<in> set (map item_id items)"
    then obtain x where "x \<in> set items" "item_id x = item_id it" by auto
    with generateId_greater [of x items] assms(2) show False by simp
  qed
  moreover have "0 < item_id it"
    using generateId_positive [of items] assms by (simp add: ids_ok_def list_all_iff)
  ultimately show ?thesis using assms(1) by (simp add: ids_ok_def)
qed

lemma ids_ok_assignFound:
  "(\<And>x. item_id (f x) = item_id x) \<Longrightarrow> ids_ok (assignFound P f xs) = ids_ok xs"
  by (simp add: ids_ok_def map_assignFound)

lemma ids_ok_splice:
  assumes "ids_ok xs" and "k < length xs"
  shows "ids_ok (take k xs @ drop (Suc k) xs)"
proof -
  from assms(2) have "xs = take k xs @ xs ! k # drop (Suc k) xs"
    by (rule id_take_nth_drop)
  then have "ids_ok (take k xs @ xs ! k # drop (Suc k) xs)" using assms(1) by simp
  then show ?thesis by (auto simp: ids_ok_def)
qed

lemma post_register_ids_ok:
  "ids_ok (inventory s) \<Longrightarrow> ids_ok (inventory (snd (post_register e name d f s)))"
  by (auto simp: post_register_def upload_single_def saveInventory_def Let_def ids_ok_append
      split: option.splits write_result.splits)

lemma put_inventory_id_ids_ok:
  "ids_ok (inventory s) \<Longrightarrow> ids_ok (inventory (snd (put_inventory_id e i name d s)))"
  by (auto simp: put_inventory_id_def saveInventory_def Let_def ids_ok_assignFound
      split: option.splits write_result.splits)

lemma put_inventory_id_photo_ids_ok:
  "ids_ok (inventory s) \<Longrightarrow> ids_ok (inventory (snd (put_inventory_id_photo e i f s)))"
  by (auto simp: put_inventory_id_photo_def upload_single_def saveInventory_def Let_def
      ids_ok_assignFound split: option.splits write_result.splits)

lemma post_search_ids_ok:
  "ids_ok (inventory s) \<Longrightarrow> ids_ok (inventory (snd (post_search e i flag s)))"
  by (auto simp: post_search_def saveInventory_def Let_def ids_ok_assignFound
      split: option.splits write_result.splits)

lemma delete_inventory_id_ids_ok:
  "ids_ok (inventory s) \<Longrightarrow> ids_ok (inventory (snd (delete_inventory_id e i s)))"
  by (auto simp: delete_inventory_id_def unlink_ignoring_errors_def saveInventory_def Let_def
      ids_ok_splice dest: findIndex_Some split: option.splits write_result.splits)

lemma get_ids_ok:
  "inventory (snd (get_inventory s)) = inventory s"
  "inventory (snd (get_inventory_id i s)) = inventory s"
  "inventory (snd (get_inventory_id_photo e i s)) = inventory s"
  by (auto simp: get_inventory_def get_inventory_id_def get_inventory_id_photo_def Let_def
      split: option.splits)

lemma handle_ids_ok:
  assumes "ids_ok (inventory s)"
  shows "ids_ok (inventory (snd (handle r s)))"
  using assms
  by (cases r)
     (simp_all add: post_register_ids_ok put_inventory_id_ids_ok put_inventory_id_photo_ids_ok
        post_search_ids_ok delete_inventory_id_ids_ok get_ids_ok)

lemma reachable_ids_ok: "reachable s \<Longrightarrow> ids_ok (inventory s)"
proof (induction rule: reachable.induct)
  case reachable_fresh
  show ?case by (simp add: fresh_def ids_ok_def)
next
  case (reachable_handle s r)
  then show ?case by (simp add: handle_ids_ok)
qed


subsection \<open>Deleting\<close>

lemma find_after_splice:
  assumes "distinct (map item_id xs)" and "findIndex (sameId n) xs = Some k"
  shows "find (sameId n) (take k xs @ drop (Suc k) xs) = None"
  using assms
proof (induction xs arbitrary: k)
  case Nil
  then show ?case by simp
next
  case (Cons a xs)
  show ?case
  proof (cases "sameId n a")
    case True
    with Cons.prems(2) have k: "k = 0" by simp
    have "\<not> sameId n x" if "x \<in> set xs" for x
    proof
      assume "sameId n x"
      with True have "item_id x = item_id a" by (auto dest: sameId_unique)
      moreover from Cons.prems(1) have "item_id a \<notin> item_id ` set xs" by simp
      ultimately show False using that by (metis imageI)
    qed
    with k show ?thesis by (simp add: find_None_iff)
  next
    case False
    with Cons.prems(2) obtain j where j: "findIndex (sameId n) xs = Some j" "k = Suc j"
      by (auto split: if_splits)
    from Cons.prems(1) have "distinct (map item_id xs)" by simp
    from Cons.IH [OF this j(1)] False j(2) show ?thesis by simp
  qed
qed

lemma not_in_after_splice:
  assumes "distinct (map item_id xs)" and "k < length xs"
  shows "xs ! k \<notin> set (take k xs @ drop (Suc k) xs)"
proof -
  from assms(2) have eq: "xs = take k xs @ xs ! k # drop (Suc k) xs"
    by (rule id_take_nth_drop)
  have "distinct xs" using assms(1) by (simp add: distinct_map)
  then have "distinct (take k xs @ xs ! k # drop (Suc k) xs)" using eq by simp
  then show ?thesis by auto
qed

lemma delete_inventory_id_found:
  assumes "findIndex (sameId (Number (Some i))) (inventory s) = Some k"
    and "write_result e = WriteFulfils"
  shows "fst (delete_inventory_id e i s) = Response 200 (Message ''Item deleted'')"
    and "inventory (snd (delete_inventory_id e i s))
           = take k (inventory s) @ drop (Suc k) (inventory s)"
    and "INVENTORY_FILE (snd (delete_inventory_id e i s))
           = Some (inventory (snd (delete_inventory_id e i s)))"
    and "fs_calls (snd (delete_inventory_id e i s))
           = fs_calls s @ WriteFile (take k (inventory s) @ drop (Suc k) (inventory s))
               # (case photoFilename (inventory s ! k) of
                    None \<Rightarrow> []
                  | Some f \<Rightarrow> if f = [] then [] else [Unlink f])"
    and "PHOTOS_DIR (snd (delete_inventory_id e i s))
           = (case photoFilename (inventory s ! k) of
                None \<Rightarrow> PHOTOS_DIR s
              | Some f \<Rightarrow> if f = [] \<or> unlink_fails e then PHOTOS_DIR s
                          else (PHOTOS_DIR s)(f := None))"
proof -
  from assms(1) have n: "Number (Some i) \<noteq> NaN"
    using findIndex_Some [OF assms(1)] by (auto simp: sameId_def)
  show "fst (delete_inventory_id e i s) = Response 200 (Message ''Item deleted'')"
    and "inventory (snd (delete_inventory_id e i s))
           = take k (inventory s) @ drop (Suc k) (inventory s)"
    and "INVENTORY_FILE (snd (delete_inventory_id e i s))
           = Some (inventory (snd (delete_inventory_id e i s)))"
    and "fs_calls (snd (delete_inventory_id e i s))
           = fs_calls s @ WriteFile (take k (inventory s) @ drop (Suc k) (inventory s))
               # (case photoFilename (inventory s ! k) of
                    None \<Rightarrow> []
                  | Some f \<Rightarrow> if f = [] then [] else [Unlink f])"
    and "PHOTOS_DIR (snd (delete_inventory_id e i s))
           = (case photoFilename (inventory s ! k) of
                None \<Rightarrow> PHOTOS_DIR s
              | Some f \<Rightarrow> if f = [] \<or> unlink_fails e then PHOTOS_DIR s
                          else (PHOTOS_DIR s)(f := None))"
    using assms n
    by (auto simp: delete_inventory_id_def saveInventory_def unlink_ignoring_errors_def Let_def
        split: option.splits)
qed

lemma not_found_responses:
  assumes "findItemById (Number (Some i)) (inventory s) = None" and "Number (Some i) \<noteq> NaN"
  shows "get_inventory_id i s = (Response 404 (Error ''Item not found''), s)"
    and "get_inventory_id_photo e i s = (Response 404 (Error ''Photo not found''), s)"
  using assms by (simp_all add: get_inventory_id_def get_inventory_id_photo_def)

lemma delete_inventory_id_200:
  assumes "fst (delete_inventory_id e i s) = Response 200 b"
  shows "\<exists>it. findItemById (Number (Some i)) (inventory s) = Some it"
    and "write_result e = WriteFulfils"
    and "b = Message ''Item deleted''"
proof -
  from assms obtain k where k: "findIndex (sameId (Number (Some i))) (inventory s) = Some k"
    by (auto simp: delete_inventory_id_def Let_def split: option.splits if_splits)
  from findIndex_Some [OF k]
  show "\<exists>it. findItemById (Number (Some i)) (inventory s) = Some it"
    by (auto simp: findItemById_def)
  from assms k show "write_result e = WriteFulfils" and "b = Message ''Item deleted''"
    by (auto simp: delete_inventory_id_def saveInventory_def Let_def
        split: option.splits if_splits write_result.splits)
qed

lemma delete_existing_item:
  assumes "reachable s"
    and "findItemById (Number (Some i)) (inventory s) = Some it"
    and "write_result e = WriteFulfils"
  shows "fst (delete_inventory_id e i s) = Response 200 (Message ''Item deleted'')
         \<and> (\<exists>k < length (inventory s). inventory s ! k = it
              \<and> inventory (snd (delete_inventory_id e i s))
                  = take k (inventory s) @ drop (Suc k) (inventory s))
         \<and> it \<notin> set (inventory (snd (delete_inventory_id e i s)))
         \<and> INVENTORY_FILE (snd (delete_inventory_id e i s))
             = Some (inventory (snd (delete_inventory_id e i s)))
         \<and> fs_calls (snd (delete_inventory_id e i s))
             = fs_calls s @ WriteFile (inventory (snd (delete_inventory_id e i s)))
                 # (case photoFilename it of
                      None \<Rightarrow> []
                    | Some f \<Rightarrow> if f = [] then [] else [Unlink f])
         \<and> PHOTOS_DIR (snd (delete_inventory_id e i s))
             = (case photoFilename it of
                  None \<Rightarrow> PHOTOS_DIR s
                | Some f \<Rightarrow> if f = [] \<or> unlink_fails e then PHOTOS_DIR s
                            else (PHOTOS_DIR s)(f := None))
         \<and> get_inventory_id i (snd (delete_inventory_id e i s))
             = (Response 404 (Error ''Item not found''), snd (delete_inventory_id e i s))
         \<and> get_inventory_id_photo e' i (snd (delete_inventory_id e i s))
             = (Response 404 (Error ''Photo not found''), snd (delete_inventory_id e i s))"
proof -
  let ?n = "Number (Some i)"
  let ?s' = "snd (delete_inventory_id e i s)"
  from reachable_ids_ok [OF assms(1)] have dist: "distinct (map item_id (inventory s))"
    by (simp add: ids_ok_def)
  from findItemById_index [OF assms(2)] obtain k where
    k: "findIndex (sameId ?n) (inventory s) = Some k" "k < length (inventory s)"
       "inventory s ! k = it" by blast
  note d = delete_inventory_id_found [OF k(1) assms(3)]
  have gone: "findItemById ?n (inventory ?s') = None"
    using find_after_splice [OF dist k(1)] d(2) by (simp add: findItemById_def)
  have nn: "?n \<noteq> NaN" by (rule findItemById_not_NaN [OF assms(2)])
  have a: "\<exists>k < length (inventory s). inventory s ! k = it
              \<and> inventory ?s' = take k (inventory s) @ drop (Suc k) (inventory s)"
    using k d(2) by blast
  have b: "it \<notin> set (inventory ?s')"
    using not_in_after_splice [OF dist k(2)] k(3) d(2) by simp
  have c: "fs_calls ?s' = fs_calls s @ WriteFile (inventory ?s')
                 # (case photoFilename it of
                      None \<Rightarrow> []
                    | Some f \<Rightarrow> if f = [] then [] else [Unlink f])"
    using d(4) d(2) k(3) by simp
  have p: "PHOTOS_DIR ?s' = (case photoFilename it of
                  None \<Rightarrow> PHOTOS_DIR s
                | Some f \<Rightarrow> if f = [] \<or> unlink_fails e then PHOTOS_DIR s
                            else (PHOTOS_DIR s)(f := None))"
    using d(5) k(3) by simp
  from d(1) a b d(3) c p not_found_responses [OF gone nn]
  show ?thesis by blast
qed

lemma Number_blank: "trim j = [] \<Longrightarrow> Number (Some j) = Finite 0"
  by (simp add: Number_def stringToNumber_def)


subsection \<open>Files that no item refers to\<close>

lemma list_all_assignFound:
  "list_all Q xs \<Longrightarrow> (\<And>x. Q x \<Longrightarrow> Q (g x)) \<Longrightarrow> list_all Q (assignFound P g xs)"
  by (induction xs) auto

lemma list_all_splice: "list_all Q xs \<Longrightarrow> list_all Q (take k xs @ drop (Suc k) xs)"
  by (auto simp: list_all_iff dest: in_set_takeD in_set_dropD)

lemma list_all_nth: "list_all Q xs \<Longrightarrow> k < length xs \<Longrightarrow> Q (xs ! k)"
  by (simp add: list_all_length)

lemma upload_single_orphan:
  "orphan f c s \<Longrightarrow> (case upl of None \<Rightarrow> True | Some u \<Rightarrow> filename u \<noteq> f \<and> basename (filename u) \<noteq> f)
     \<Longrightarrow> orphan f c (upload_single upl s)"
  by (auto simp: orphan_def upload_single_def split: option.splits)

lemma post_register_orphan:
  assumes "orphan f c s" and "avoids f (Register e name descr upl)"
  shows "orphan f c (snd (post_register e name descr upl s))"
proof -
  from assms have "orphan f c (upload_single upl s)" by (simp add: upload_single_orphan)
  with assms(2) show ?thesis
    by (auto simp: post_register_def saveInventory_def Let_def orphan_def
        split: option.splits write_result.splits)
qed

lemma put_inventory_id_orphan:
  "orphan f c s \<Longrightarrow> orphan f c (snd (put_inventory_id e i name d s))"
  by (auto simp: put_inventory_id_def saveInventory_def Let_def orphan_def
      intro!: list_all_assignFound split: option.splits write_result.splits)

lemma put_inventory_id_photo_orphan:
  assumes "orphan f c s" and "avoids f (ReplacePhoto e i upl)"
  shows "orphan f c (snd (put_inventory_id_photo e i upl s))"
proof -
  from assms have "orphan f c (upload_single upl s)" by (simp add: upload_single_orphan)
  with assms(2) show ?thesis
    by (auto simp: put_inventory_id_photo_def saveInventory_def Let_def orphan_def
        intro!: list_all_assignFound split: option.splits write_result.splits)
qed

lemma post_search_orphan:
  "orphan f c s \<Longrightarrow> orphan f c (snd (post_search e i flag s))"
  by (auto simp: post_search_def saveInventory_def Let_def orphan_def
      intro!: list_all_assignFound split: option.splits write_result.splits)

lemma get_inventory_id_photo_orphan:
  "orphan f c s \<Longrightarrow> orphan f c (snd (get_inventory_id_photo e i s))"
  by (auto simp: get_inventory_id_photo_def Let_def orphan_def split: option.splits)

lemma delete_inventory_id_orphan:
  assumes "orphan f c s"
  shows "orphan f c (snd (delete_inventory_id e i s))"
proof (cases "Number (Some i) = NaN")
  case True
  with assms show ?thesis by (simp add: delete_inventory_id_def)
next
  case False
  show ?thesis
  proof (cases "findIndex (sameId (Number (Some i))) (inventory s)")
    case None
    with False assms show ?thesis by (simp add: delete_inventory_id_def)
  next
    case (Some k)
    from findIndex_Some [OF Some] have k: "k < length (inventory s)" by simp
    from assms have all: "list_all (\<lambda>it. photoFilename it \<noteq> Some f) (inventory s)"
      by (simp add: orphan_def)
    from list_all_nth [OF all k] have nf: "photoFilename (inventory s ! k) \<noteq> Some f" .
    from list_all_splice [OF all]
    have rest: "list_all (\<lambda>it. photoFilename it \<noteq> Some f)
                  (take k (inventory s) @ drop (Suc k) (inventory s))" .
    from assms have p: "PHOTOS_DIR s f = Some c" by (simp add: orphan_def)
    show ?thesis
      using False Some nf rest p
      by (auto simp: delete_inventory_id_def saveInventory_def unlink_ignoring_errors_def
          Let_def orphan_def split: option.splits write_result.splits)
  qed
qed

lemma get_unchanged: "snd (get_inventory s) = s" "snd (get_inventory_id i s) = s"
  by (auto simp: get_inventory_def get_inventory_id_def Let_def split: option.splits)

lemma handle_orphan:
  assumes "orphan f c s" and "avoids f r"
  shows "orphan f c (snd (handle r s))"
  using assms
  by (cases r)
     (simp_all add: post_register_orphan put_inventory_id_orphan put_inventory_id_photo_orphan
        post_search_orphan get_inventory_id_photo_orphan delete_inventory_id_orphan
        get_unchanged)

lemma run_orphan:
  "orphan f c s \<Longrightarrow> list_all (avoids f) rs \<Longrightarrow> orphan f c (snd (run rs s))"
proof (induction rs arbitrary: s)
  case Nil
  then show ?case by simp
next
  case (Cons r rs)
  from Cons.prems have "orphan f c (snd (handle r s))" by (simp add: handle_orphan)
  from Cons.IH [OF this] Cons.prems(2) show ?case
    by (simp add: split_beta)
qed

subsection \<open>The next id after a deletion\<close>

lemma ids_after_splice:
  assumes "distinct (map item_id xs)" and "k < length xs"
  shows "set (map item_id (take k xs @ drop (Suc k) xs)) = set (map item_id xs) - {item_id (xs ! k)}"
proof -
  from assms(2) have eq: "xs = take k xs @ xs ! k # drop (Suc k) xs"
    by (rule id_take_nth_drop)
  have "distinct (map item_id (take k xs @ xs ! k # drop (Suc k) xs))"
    using assms(1) eq by simp
  then have "item_id (xs ! k) \<notin> set (map item_id (take k xs @ drop (Suc k) xs))"
    by auto
  moreover have "set (map item_id xs)
      = insert (item_id (xs ! k)) (set (map item_id (take k xs @ drop (Suc k) xs)))"
    by (subst eq) auto
  ultimately show ?thesis by auto
qed

lemma generateId_after_removing_max:
  assumes "finite S" and "m \<in> S" and "\<forall>x \<in> S. x \<le> m" and "\<forall>x \<in> S. (0::int) < x"
    and "set (map item_id ys) = S - {m}"
  shows "generateId ys \<le> m \<and> (generateId ys = m \<longleftrightarrow> m = 1 \<or> m - 1 \<in> S)"
proof (cases "ys = []")
  case True
  then have g: "generateId ys = 1" by (simp add: generateId_def)
  from True assms(5) have "S - {m} = {}" by simp
  then have "m - 1 \<notin> S" by auto
  moreover from assms(2,4) have "1 \<le> m" by force
  ultimately show ?thesis using g by auto
next
  case False
  let ?T = "set (map item_id ys)"
  from False have ne: "?T \<noteq> {}" by simp
  have fin: "finite ?T" by simp
  have lt: "\<forall>x \<in> ?T. x < m" using assms(3,5) by force
  have pos: "\<forall>x \<in> ?T. 0 < x" using assms(4,5) by auto
  have g: "generateId ys = Max ?T + 1" using False by (simp add: generateId_def)
  have mx: "Max ?T \<in> ?T" using fin ne by (rule Max_in)
  with lt have "Max ?T < m" by blast
  then have le: "generateId ys \<le> m" using g by simp
  have "generateId ys = m \<longleftrightarrow> m - 1 \<in> S"
  proof
    assume "generateId ys = m"
    with g have "Max ?T = m - 1" by simp
    with mx have "m - 1 \<in> ?T" by simp
    then show "m - 1 \<in> S" using assms(5) by auto
  next
    assume "m - 1 \<in> S"
    then have "m - 1 \<in> ?T" using assms(5) by auto
    moreover have "\<forall>x \<in> ?T. x \<le> m - 1" using lt by auto
    ultimately have "Max ?T = m - 1" using fin by (intro Max_eqI) auto
    with g show "generateId ys = m" by simp
  qed
  moreover have "m \<noteq> 1"
  proof
    assume "m = 1"
    from mx lt pos have "0 < Max ?T" "Max ?T < m" by auto
    with \<open>m = 1\<close> show False by simp
  qed
  ultimately show ?thesis using le by auto
qed

lemma post_register_created:
  assumes "trim n \<noteq> []" and "write_result e = WriteFulfils"
  shows "created_id (fst (post_register e (Some n) descr f s)) = Some (generateId (inventory s))"
proof -
  from assms(1) have "n \<noteq> []" by (auto simp: trim_def)
  with assms show ?thesis
    by (auto simp: post_register_def upload_single_def saveInventory_def Let_def toJson_def
        split: option.splits)
qed

subsection \<open>The example states, evaluated\<close>

lemma trim_Nil: "trim [] = []" by (simp add: trim_def)
lemma trim_Laptop: "trim (utf16 ''Laptop'') = utf16 ''Laptop''" by code_simp
lemma trim_Dell: "trim (utf16 ''Dell'') = utf16 ''Dell''" by code_simp
lemma trim_Camera: "trim (utf16 ''Camera'') = utf16 ''Camera''" by code_simp
lemma Laptop_not_Nil: "utf16 ''Laptop'' \<noteq> []" "utf16 ''Camera'' \<noteq> []" by (simp_all add: utf16_def)
lemma basename_photo: "basename (utf16 ''photo_1700000000000-42.jpg'') = utf16 ''photo_1700000000000-42.jpg''" by code_simp
lemma Number_1: "Number (Some (utf16 ''1'')) = Finite 1" by code_simp

lemma inventory_one_laptop: "inventory one_laptop = [laptop]"
  by (simp add: one_laptop_def laptop_def post_register_def upload_single_def saveInventory_def
      fs_ok_def fresh_def generateId_def Let_def trim_Laptop trim_Dell Laptop_not_Nil)

lemma inventory_one_camera: "inventory one_camera = [camera]"
  by (simp add: one_camera_def camera_def photo_upload_def post_register_def upload_single_def
      saveInventory_def fs_ok_def fresh_def generateId_def Let_def trim_Camera trim_Nil
      Laptop_not_Nil basename_photo)

lemma find_laptop: "findItemById (Number (Some (utf16 ''1''))) (inventory one_laptop) = Some laptop"
  by (simp add: inventory_one_laptop Number_1 findItemById_def sameId_def laptop_def)

lemma find_camera: "findItemById (Number (Some (utf16 ''1''))) (inventory one_camera) = Some camera"
  by (simp add: inventory_one_camera Number_1 findItemById_def sameId_def camera_def)


lemma reachable_one_camera: "reachable one_camera"
  unfolding one_camera_def by (rule reachable_handle [OF reachable_fresh])

lemma PHOTOS_DIR_one_camera:
  "PHOTOS_DIR one_camera = [utf16 ''photo_1700000000000-42.jpg'' \<mapsto> [0xFF, 0xD8]]"
  by (simp add: one_camera_def photo_upload_def post_register_def upload_single_def
      saveInventory_def fs_ok_def fresh_def Let_def trim_Camera Laptop_not_Nil)

lemma reachable_run: "reachable s \<Longrightarrow> reachable (snd (run rs s))"
proof (induction rs arbitrary: s)
  case Nil
  then show ?case by simp
next
  case (Cons r rs)
  from Cons.prems have "reachable (snd (handle r s))" by (rule reachable_handle)
  from Cons.IH [OF this] show ?case by (simp add: split_beta)
qed

lemma reachable_one_laptop: "reachable one_laptop"
  unfolding one_laptop_def by (rule reachable_handle [OF reachable_fresh])

lemma Number_2: "Number (Some (utf16 ''2'')) = Finite 2" by code_simp
lemma Number_3: "Number (Some (utf16 ''3'')) = Finite 3" by code_simp
lemma trim_Phone: "trim (utf16 ''Phone'') = utf16 ''Phone''" by code_simp
lemma trim_Tablet: "trim (utf16 ''Tablet'') = utf16 ''Tablet''" by code_simp
lemma Phone_not_Nil: "utf16 ''Phone'' \<noteq> []" "utf16 ''Tablet'' \<noteq> []" by (simp_all add: utf16_def)

lemma inventory_gap_store:
  "inventory gap_store
     = [\<lparr>item_id = 1, inventory_name = utf16 ''Laptop'', description = [], photoFilename = None\<rparr>,
        \<lparr>item_id = 3, inventory_name = utf16 ''Phone'', description = [], photoFilename = None\<rparr>]"
  by (simp add: gap_store_def post_register_def delete_inventory_id_def upload_single_def
      saveInventory_def fs_ok_def fresh_def generateId_def Let_def sameId_def
      trim_Laptop trim_Camera trim_Phone trim_Nil Laptop_not_Nil Phone_not_Nil Number_2)

lemma Number_Infinity: "Number (Some (utf16 ''Infinity'')) = PosInfinity" by code_simp

lemma reachable_gap_store: "reachable gap_store"
  unfolding gap_store_def by (rule reachable_run [OF reachable_fresh])


section \<open>Properties of the service\<close>



text \<open>
  C2. The claim as stated, that after N successful registrations and no deletion the store
  holds exactly N items with the ids 1..N, fails when a registration in between is not saved:
  the handler pushes the item before \<open>saveInventory\<close>, and when the save rejects it answers
  500 and the item stays. After such a registration and one successful one there is a single
  201 response, it carries the id 2, and the store holds two items.
\<close>

theorem rejected_save_keeps_pushed_item:
  "list_all (\<lambda>r. \<not> is_delete r)
     [Register fs_write_rejected (Some (utf16 ''Laptop'')) None None,
      Register fs_ok (Some (utf16 ''Phone'')) None None]
   \<and> fst (run [Register fs_write_rejected (Some (utf16 ''Laptop'')) None None,
               Register fs_ok (Some (utf16 ''Phone'')) None None] fresh)
       = [Response 500 (Error ''Internal Server Error''),
          Response 201 (Item (ItemJson 2 (utf16 ''Phone'') [] None))]
   \<and> List.map_filter created_id
        (fst (run [Register fs_write_rejected (Some (utf16 ''Laptop'')) None None,
                   Register fs_ok (Some (utf16 ''Phone'')) None None] fresh))
       = [2]
   \<and> map item_id
        (inventory (snd (run [Register fs_write_rejected (Some (utf16 ''Laptop'')) None None,
                              Register fs_ok (Some (utf16 ''Phone'')) None None] fresh)))
       = [1, 2]"
  by (simp add: post_register_def upload_single_def saveInventory_def fs_ok_def
      fs_write_rejected_def fresh_def generateId_def Let_def toJson_def truthy_def
      trim_Laptop trim_Phone trim_Nil Laptop_not_Nil Phone_not_Nil)

text \<open>
  C2, amended. Starting from the empty store, after any requests without a delete in which
  every register that reached \<open>saveInventory\<close> was saved, the store holds exactly as many
  items as there were 201 responses, their ids are 1..N in order, and the ids returned by
  the 201 responses are 1..N in the order of registration; \<open>generateId\<close> gives 1 for the
  empty array and the greatest id plus one otherwise.
\<close>

theorem registered_ids_are_1_to_N:
  assumes "run rs fresh = (outs, s')"
    and "\<forall>r \<in> set rs. \<not> is_delete r \<and> register_saved r"
    and "N = length (List.map_filter created_id outs)"
  shows "map item_id (inventory s') = [1..int N]
         \<and> List.map_filter created_id outs = [1..int N]
         \<and> length (inventory s') = N
         \<and> generateId [] = 1
         \<and> (\<forall>items. items \<noteq> [] \<longrightarrow> generateId items = Max (set (map item_id items)) + 1)"
proof -
  have f: "map item_id (inventory fresh) = [1..int 0]" by (simp add: fresh_def)
  note r = run_ids [OF assms(1,2) f]
  from r [THEN conjunct1] have a: "map item_id (inventory s') = [1..int N]"
    by (simp add: assms(3))
  from r [THEN conjunct2] have "List.map_filter created_id outs = map item_id (inventory s')"
    by simp
  from this a have b: "List.map_filter created_id outs = [1..int N]" by (rule trans)
  have "length (map item_id (inventory s')) = length [1..int N]"
    by (rule arg_cong [OF a])
  then have c: "length (inventory s') = N" by simp
  have d: "generateId [] = 1" by (simp add: generateId_def)
  have e: "\<forall>items. items \<noteq> [] \<longrightarrow> generateId items = Max (set (map item_id items)) + 1"
    by (simp add: generateId_def)
  from a b c d e show ?thesis by blast
qed

theorem registered_ids_are_1_to_N_witness:
  "list_all (\<lambda>r. \<not> is_delete r \<and> register_saved r)
     [Register fs_ok (Some (utf16 ''Laptop'')) None None, Get (utf16 ''1''),
      Register fs_ok (Some (utf16 '' Phone '')) None None]
   \<and> (2 :: nat) = length (List.map_filter created_id
         (fst (run [Register fs_ok (Some (utf16 ''Laptop'')) None None, Get (utf16 ''1''),
                    Register fs_ok (Some (utf16 '' Phone '')) None None] fresh)))
   \<and> map item_id (inventory
         (snd (run [Register fs_ok (Some (utf16 ''Laptop'')) None None, Get (utf16 ''1''),
                    Register fs_ok (Some (utf16 '' Phone '')) None None] fresh))) = [1, 2]
   \<and> [laptop] \<noteq> []
   \<and> generateId [laptop] = 2"
proof -
  let ?rs = "[Register fs_ok (Some (utf16 ''Laptop'')) None None, Get (utf16 ''1''),
              Register fs_ok (Some (utf16 '' Phone '')) None None]"
  have a: "run ?rs fresh = (fst (run ?rs fresh), snd (run ?rs fresh))" by simp
  have l: "list_all (\<lambda>r. \<not> is_delete r \<and> register_saved r) ?rs" by (simp add: fs_ok_def)
  then have b: "\<forall>r \<in> set ?rs. \<not> is_delete r \<and> register_saved r" by (simp add: fs_ok_def)
  have c: "(2 :: nat) = length (List.map_filter created_id (fst (run ?rs fresh)))" by code_simp
  note t = registered_ids_are_1_to_N [OF a b c]
  from t have "map item_id (inventory (snd (run ?rs fresh))) = [1..int 2]" by blast
  moreover have "[1..int 2] = [1, 2]" by code_simp
  ultimately have i: "map item_id (inventory (snd (run ?rs fresh))) = [1, 2]" by simp
  have n: "[laptop] \<noteq> []" by simp
  from t have "[laptop] \<noteq> [] \<longrightarrow> generateId [laptop] = Max (set (map item_id [laptop])) + 1"
    by blast
  with n have g: "generateId [laptop] = 2" by (simp add: laptop_def)
  from l c i n g show ?thesis by blast
qed

text \<open>
  C3. A register request whose name is missing, or blank once trimmed, is answered with 400
  and leaves the state as the upload middleware left it: the array, the file
  \<open>inventory.json\<close> and the next id are unchanged, and no call writes the file (without a
  file part the whole state is unchanged).
\<close>

theorem register_without_name_rejected:
  assumes "case name of None \<Rightarrow> True | Some n \<Rightarrow> trim n = []"
  shows "fst (post_register e name descr file s) = Response 400 (Error ''inventory_name is required'')
         \<and> snd (post_register e name descr file s) = upload_single file s
         \<and> inventory (snd (post_register e name descr file s)) = inventory s
         \<and> INVENTORY_FILE (snd (post_register e name descr file s)) = INVENTORY_FILE s
         \<and> generateId (inventory (snd (post_register e name descr file s))) = generateId (inventory s)
         \<and> fs_calls (snd (post_register e name descr file s))
             = fs_calls s @ (case file of None \<Rightarrow> [] | Some u \<Rightarrow> [StoreUpload (filename u)])
         \<and> upload_single None s = s"
  using assms
  by (auto simp: post_register_def upload_single_def Let_def split: option.splits)

theorem register_without_name_rejected_witness:
  "trim (utf16 ''  '') = []
   \<and> fst (post_register fs_ok (Some (utf16 ''  '')) (Some (utf16 ''Dell'')) None fresh)
       = Response 400 (Error ''inventory_name is required'')
   \<and> snd (post_register fs_ok (Some (utf16 ''  '')) (Some (utf16 ''Dell'')) None fresh) = fresh"
proof -
  have t: "trim (utf16 ''  '') = []" by code_simp
  then have h: "case Some (utf16 ''  '') of None \<Rightarrow> True | Some n \<Rightarrow> trim n = []" by simp
  from register_without_name_rejected [OF h, of fs_ok "Some (utf16 ''Dell'')" None fresh] t
  show ?thesis by simp
qed

text \<open>
  C4. An update of an existing item assigns only the fields the body supplies, trimmed: a
  field that is absent keeps its value, the id and the photo reference are unchanged, and
  no other element of the array changes. With a successful save the response is 200 with
  the updated item.
\<close>

theorem update_changes_only_supplied_fields:
  assumes "findItemById (Number (Some i)) (inventory s) = Some it"
  shows "\<exists>k it'. k < length (inventory s) \<and> inventory s ! k = it
           \<and> inventory (snd (put_inventory_id e i name descr s)) = (inventory s)[k := it']
           \<and> findItemById (Number (Some i)) (inventory (snd (put_inventory_id e i name descr s))) = Some it'
           \<and> item_id it' = item_id it
           \<and> photoFilename it' = photoFilename it
           \<and> inventory_name it' = (case name of None \<Rightarrow> inventory_name it | Some v \<Rightarrow> trim v)
           \<and> description it' = (case descr of None \<Rightarrow> description it | Some v \<Rightarrow> trim v)
           \<and> (write_result e = WriteFulfils \<longrightarrow>
                fst (put_inventory_id e i name descr s) = Response 200 (Item (toJson it')))"
proof -
  let ?n = "Number (Some i)"
  let ?upd = "\<lambda>x. x\<lparr>inventory_name := (case name of None \<Rightarrow> inventory_name x | Some v \<Rightarrow> trim v),
                       description := (case descr of None \<Rightarrow> description x | Some v \<Rightarrow> trim v)\<rparr>"
  from findItemById_index [OF assms] obtain k where
    k: "findIndex (sameId ?n) (inventory s) = Some k" "k < length (inventory s)"
       "inventory s ! k = it" "sameId ?n it" by blast
  have inv: "inventory (snd (put_inventory_id e i name descr s)) = (inventory s)[k := ?upd it]"
    using put_inventory_id_found(1) [OF assms] assignFound_update [OF k(1)] k(3)
    by (simp cong: option.case_cong)
  have same: "sameId ?n (?upd it)" using k(4) by (simp add: sameId_def)
  have "find (sameId ?n) (assignFound (sameId ?n) ?upd (inventory s)) = Some (?upd it)"
    using assms same by (intro find_assignFound) (simp_all add: findItemById_def)
  then have f: "findItemById ?n (inventory (snd (put_inventory_id e i name descr s))) = Some (?upd it)"
    using put_inventory_id_found(1) [OF assms] by (simp add: findItemById_def)
  have r: "write_result e = WriteFulfils \<longrightarrow>
      fst (put_inventory_id e i name descr s) = Response 200 (Item (toJson (?upd it)))"
    using put_inventory_id_found(2) [OF assms] by blast
  show ?thesis
    by (rule exI [of _ k], rule exI [of _ "?upd it"]) (use k inv f r in simp)
qed

theorem update_changes_only_supplied_fields_witness:
  "findItemById (Number (Some (utf16 ''1''))) (inventory one_laptop) = Some laptop
   \<and> write_result fs_ok = WriteFulfils
   \<and> map inventory_name
        (inventory (snd (put_inventory_id fs_ok (utf16 ''1'') None (Some (utf16 '' Lenovo '')) one_laptop)))
       = [utf16 ''Laptop'']
   \<and> map description
        (inventory (snd (put_inventory_id fs_ok (utf16 ''1'') None (Some (utf16 '' Lenovo '')) one_laptop)))
       = [utf16 ''Lenovo'']
   \<and> fst (put_inventory_id fs_ok (utf16 ''1'') None (Some (utf16 '' Lenovo '')) one_laptop)
       = Response 200 (Item (ItemJson 1 (utf16 ''Laptop'') (utf16 ''Lenovo'') None))"
proof -
  let ?s' = "snd (put_inventory_id fs_ok (utf16 ''1'') None (Some (utf16 '' Lenovo '')) one_laptop)"
  have t: "trim (utf16 '' Lenovo '') = utf16 ''Lenovo''" by code_simp
  have w: "write_result fs_ok = WriteFulfils" by (simp add: fs_ok_def)
  from update_changes_only_supplied_fields [OF find_laptop, of fs_ok None "Some (utf16 '' Lenovo '')"]
  obtain k it' where k: "k < length (inventory one_laptop)"
    and i: "inventory ?s' = (inventory one_laptop)[k := it']"
    and id: "item_id it' = item_id laptop"
    and p: "photoFilename it' = photoFilename laptop"
    and n: "inventory_name it' = inventory_name laptop"
    and d: "description it' = trim (utf16 '' Lenovo '')"
    and r: "write_result fs_ok = WriteFulfils \<longrightarrow>
            fst (put_inventory_id fs_ok (utf16 ''1'') None (Some (utf16 '' Lenovo '')) one_laptop)
              = Response 200 (Item (toJson it'))"
    by auto
  from k have "k = 0" by (simp add: inventory_one_laptop)
  with i have "inventory ?s' = [it']" by (simp add: inventory_one_laptop)
  with n d t have a: "map inventory_name (inventory ?s') = [utf16 ''Laptop'']"
    and b: "map description (inventory ?s') = [utf16 ''Lenovo'']"
    by (simp_all add: laptop_def)
  have "toJson it' = ItemJson 1 (utf16 ''Laptop'') (utf16 ''Lenovo'') None"
    using id p n d t by (simp add: toJson_def laptop_def truthy_def)
  with r w have c: "fst (put_inventory_id fs_ok (utf16 ''1'') None (Some (utf16 '' Lenovo '')) one_laptop)
       = Response 200 (Item (ItemJson 1 (utf16 ''Laptop'') (utf16 ''Lenovo'') None))" by simp
  from find_laptop w a b c show ?thesis by blast
qed



text \<open>
  C6. In a state reached from the fresh store, a delete that answers 200 found an item with
  the id and saved the array without it: the item is removed, \<open>inventory.json\<close> holds the
  remaining items, and only after that write is \<open>unlink\<close> called on the item's photo, when
  it has one. The photo file need not be there and \<open>unlink\<close> may fail: neither changes the
  answer. Afterwards the same id gets 404 from \<open>GET /inventory/:id\<close> and from
  \<open>GET /inventory/:id/photo\<close>.
\<close>

theorem deleted_item_is_gone:
  assumes "reachable s"
    and "fst (delete_inventory_id e i s) = Response 200 b"
  shows "\<exists>it. findItemById (Number (Some i)) (inventory s) = Some it
           \<and> write_result e = WriteFulfils
           \<and> b = Message ''Item deleted''
           \<and> (\<exists>k < length (inventory s). inventory s ! k = it
                \<and> inventory (snd (delete_inventory_id e i s))
                    = take k (inventory s) @ drop (Suc k) (inventory s))
           \<and> it \<notin> set (inventory (snd (delete_inventory_id e i s)))
           \<and> INVENTORY_FILE (snd (delete_inventory_id e i s))
               = Some (inventory (snd (delete_inventory_id e i s)))
           \<and> fs_calls (snd (delete_inventory_id e i s))
               = fs_calls s @ WriteFile (inventory (snd (delete_inventory_id e i s)))
                   # (case photoFilename it of
                        None \<Rightarrow> []
                      | Some f \<Rightarrow> if f = [] then [] else [Unlink f])
           \<and> PHOTOS_DIR (snd (delete_inventory_id e i s))
               = (case photoFilename it of
                    None \<Rightarrow> PHOTOS_DIR s
                  | Some f \<Rightarrow> if f = [] \<or> unlink_fails e then PHOTOS_DIR s
                              else (PHOTOS_DIR s)(f := None))
           \<and> get_inventory_id i (snd (delete_inventory_id e i s))
               = (Response 404 (Error ''Item not found''), snd (delete_inventory_id e i s))
           \<and> get_inventory_id_photo e' i (snd (delete_inventory_id e i s))
               = (Response 404 (Error ''Photo not found''), snd (delete_inventory_id e i s))"
proof -
  from delete_inventory_id_200 [OF assms(2)] obtain it
    where it: "findItemById (Number (Some i)) (inventory s) = Some it"
      and w: "write_result e = WriteFulfils"
      and b: "b = Message ''Item deleted''"
    by blast
  from delete_existing_item [OF assms(1) it w, of e'] it w b show ?thesis
    by (intro exI [of _ it]) simp
qed

theorem deleted_item_is_gone_witness:
  "reachable one_camera
   \<and> fst (delete_inventory_id fs_ok (utf16 ''1'') one_camera) = Response 200 (Message ''Item deleted'')
   \<and> fst (get_inventory_id (utf16 ''1'') (snd (delete_inventory_id fs_ok (utf16 ''1'') one_camera)))
       = Response 404 (Error ''Item not found'')
   \<and> fst (get_inventory_id_photo fs_ok (utf16 ''1'')
            (snd (delete_inventory_id fs_ok (utf16 ''1'') one_camera)))
       = Response 404 (Error ''Photo not found'')
   \<and> PHOTOS_DIR (snd (delete_inventory_id fs_ok (utf16 ''1'') one_camera)) = Map.empty"
proof -
  have w: "write_result fs_ok = WriteFulfils" by (simp add: fs_ok_def)
  from delete_existing_item [OF reachable_one_camera find_camera w]
  have d: "fst (delete_inventory_id fs_ok (utf16 ''1'') one_camera)
             = Response 200 (Message ''Item deleted'')" by simp
  from deleted_item_is_gone [OF reachable_one_camera d, of fs_ok] find_camera
  have t: "PHOTOS_DIR (snd (delete_inventory_id fs_ok (utf16 ''1'') one_camera))
             = (case photoFilename camera of
                  None \<Rightarrow> PHOTOS_DIR one_camera
                | Some f \<Rightarrow> if f = [] \<or> unlink_fails fs_ok then PHOTOS_DIR one_camera
                            else (PHOTOS_DIR one_camera)(f := None))"
    and g: "get_inventory_id (utf16 ''1'') (snd (delete_inventory_id fs_ok (utf16 ''1'') one_camera))
             = (Response 404 (Error ''Item not found''),
                snd (delete_inventory_id fs_ok (utf16 ''1'') one_camera))"
    and p: "get_inventory_id_photo fs_ok (utf16 ''1'')
              (snd (delete_inventory_id fs_ok (utf16 ''1'') one_camera))
             = (Response 404 (Error ''Photo not found''),
                snd (delete_inventory_id fs_ok (utf16 ''1'') one_camera))"
    by auto
  have n: "utf16 ''photo_1700000000000-42.jpg'' \<noteq> []" by (simp add: utf16_def)
  from t have "PHOTOS_DIR (snd (delete_inventory_id fs_ok (utf16 ''1'') one_camera)) = Map.empty"
    using n by (simp add: camera_def fs_ok_def PHOTOS_DIR_one_camera)
  with reachable_one_camera d g p show ?thesis by simp
qed

text \<open>
  C7. The claim as stated, that every non-numeric id is answered with 400, fails for blank
  text: \<open>Number\<close> turns the empty string, and a string of white space, into 0, so the
  handlers look id 0 up in the store and answer 404. Likewise the text \<open>Infinity\<close> is a
  number to \<open>Number\<close> and is looked up.
\<close>

theorem blank_id_is_looked_up:
  "fst (post_search fs_ok (Some []) None fresh) = Response 404 (Error ''Item not found'')
   \<and> fst (post_search fs_ok (Some []) None fresh) \<noteq> Response 400 (Error ''Invalid id'')
   \<and> fst (get_inventory_id (utf16 '' '') fresh) = Response 404 (Error ''Item not found'')
   \<and> fst (get_inventory_id (utf16 '' '') fresh) \<noteq> Response 400 (Error ''Invalid id'')
   \<and> fst (get_inventory_id (utf16 ''Infinity'') fresh) = Response 404 (Error ''Item not found'')"
proof -
  have a: "Number (Some []) = Finite 0" by (simp add: Number_blank trim_Nil)
  have "trim (utf16 '' '') = []" by code_simp
  then have b: "Number (Some (utf16 '' '')) = Finite 0" by (rule Number_blank)
  show ?thesis
    by (simp add: post_search_def get_inventory_id_def a b Number_Infinity fresh_def
        findItemById_def)
qed

text \<open>
  C7, amended. In each of the six handlers that take an id, an id that \<open>Number\<close> converts
  to NaN (on \<open>/search\<close> also a missing id) is answered with 400 before the store is
  consulted: the state is unchanged, except that the upload middleware of the photo
  replacement has already stored the file, leaving the array and \<open>inventory.json\<close> as they
  were. An id that is blank converts to 0 and is looked up like any other number.
\<close>

theorem nan_id_rejected_before_lookup:
  assumes "Number (Some i) = NaN" and "trim j = []"
  shows "get_inventory_id i s = (Response 400 (Error ''Invalid id''), s)
         \<and> put_inventory_id e i name descr s = (Response 400 (Error ''Invalid id''), s)
         \<and> delete_inventory_id e i s = (Response 400 (Error ''Invalid id''), s)
         \<and> get_inventory_id_photo e i s = (Response 400 (Error ''Invalid id''), s)
         \<and> put_inventory_id_photo e i f s = (Response 400 (Error ''Invalid id''), upload_single f s)
         \<and> inventory (upload_single f s) = inventory s
         \<and> INVENTORY_FILE (upload_single f s) = INVENTORY_FILE s
         \<and> post_search e (Some i) flag s = (Response 400 (Error ''Invalid id''), s)
         \<and> post_search e None flag s = (Response 400 (Error ''Invalid id''), s)
         \<and> Number (Some j) = Finite 0
         \<and> get_inventory_id j s
             = (case findItemById (Finite 0) (inventory s) of
                  None \<Rightarrow> (Response 404 (Error ''Item not found''), s)
                | Some it \<Rightarrow> (Response 200 (Item (toJson it)), s))
         \<and> fst (post_search e (Some j) None s)
             = (case findItemById (Finite 0) (inventory s) of
                  None \<Rightarrow> Response 404 (Error ''Item not found'')
                | Some it \<Rightarrow> Response 200 (Item (toJson it)))"
proof -
  have u: "inventory (upload_single f s) = inventory s"
    "INVENTORY_FILE (upload_single f s) = INVENTORY_FILE s"
    by (simp_all add: upload_single_def split: option.splits)
  have n: "Number None = NaN" by (simp add: Number_def)
  have z: "Number (Some j) = Finite 0" by (rule Number_blank [OF assms(2)])
  show ?thesis
    using assms(1) u n z
    by (simp add: get_inventory_id_def put_inventory_id_def delete_inventory_id_def
        get_inventory_id_photo_def put_inventory_id_photo_def post_search_def truthy_def
        split: option.splits)
qed

theorem nan_id_rejected_before_lookup_witness:
  "Number (Some (utf16 ''abc'')) = NaN
   \<and> trim (utf16 '' '') = []
   \<and> get_inventory_id (utf16 ''abc'') one_laptop = (Response 400 (Error ''Invalid id''), one_laptop)
   \<and> post_search fs_ok (Some (utf16 ''abc'')) None one_laptop
       = (Response 400 (Error ''Invalid id''), one_laptop)
   \<and> get_inventory_id (utf16 '' '') one_laptop
       = (Response 404 (Error ''Item not found''), one_laptop)"
proof -
  have a: "Number (Some (utf16 ''abc'')) = NaN" by code_simp
  have b: "trim (utf16 '' '') = []" by code_simp
  have c: "findItemById (Finite 0) (inventory one_laptop) = None"
    by (simp add: inventory_one_laptop findItemById_def sameId_def laptop_def)
  from nan_id_rejected_before_lookup [OF a b, of one_laptop fs_ok] a b c
  show ?thesis by simp
qed

text \<open>
  C8. Evaluation of the update handler at the failing input: after registering "Laptop" in
  the fresh store, \<open>PUT /inventory/1\<close> with the name \<open>" "\<close> answers 200 and leaves the
  item with the empty name.
\<close>

theorem update_with_blank_name_empties_it:
  "fst (put_inventory_id fs_ok (utf16 ''1'') (Some (utf16 '' '')) None one_laptop)
     = Response 200 (Item (ItemJson 1 [] (utf16 ''Dell'') None))
   \<and> map inventory_name
        (inventory (snd (put_inventory_id fs_ok (utf16 ''1'') (Some (utf16 '' '')) None one_laptop)))
       = [[]]"
proof -
  have t: "trim (utf16 '' '') = []" by code_simp
  show ?thesis
    by (simp add: put_inventory_id_def Number_1 inventory_one_laptop findItemById_def sameId_def
        laptop_def saveInventory_def fs_ok_def Let_def t toJson_def truthy_def)
qed

text \<open>
  C9. A register request that carries a photo but no name, or a blank one, is answered with
  400 and leaves the array and \<open>inventory.json\<close> unchanged, while the upload middleware has
  already stored the file. When no item referred to the generated name before, the file is
  an orphan: it is in the photos directory and no item refers to it. It stays one through
  any later requests whose uploads get other names: no handler removes it.
\<close>

theorem rejected_register_leaves_orphan_photo:
  assumes "case name of None \<Rightarrow> True | Some n \<Rightarrow> trim n = []"
    and "list_all (\<lambda>it. photoFilename it \<noteq> Some (filename u)) (inventory s)"
    and "list_all (avoids (filename u)) rs"
  shows "fst (post_register e name descr (Some u) s)
           = Response 400 (Error ''inventory_name is required'')
         \<and> inventory (snd (post_register e name descr (Some u) s)) = inventory s
         \<and> INVENTORY_FILE (snd (post_register e name descr (Some u) s)) = INVENTORY_FILE s
         \<and> orphan (filename u) (content u) (snd (post_register e name descr (Some u) s))
         \<and> orphan (filename u) (content u)
             (snd (run rs (snd (post_register e name descr (Some u) s))))"
proof -
  let ?s1 = "snd (post_register e name descr (Some u) s)"
  have r: "fst (post_register e name descr (Some u) s)
             = Response 400 (Error ''inventory_name is required'')"
    and s1: "?s1 = upload_single (Some u) s"
    using assms(1) by (auto simp: post_register_def Let_def split: option.splits)
  have i: "inventory ?s1 = inventory s" "INVENTORY_FILE ?s1 = INVENTORY_FILE s"
    by (simp_all add: s1 upload_single_def)
  have o: "orphan (filename u) (content u) ?s1"
    using assms(2) by (simp add: s1 upload_single_def orphan_def)
  from run_orphan [OF o assms(3)] r i o show ?thesis by simp
qed

theorem rejected_register_leaves_orphan_photo_witness:
  "trim (utf16 ''  '') = []
   \<and> list_all (\<lambda>it. photoFilename it \<noteq> Some (filename photo_upload)) (inventory one_laptop)
   \<and> list_all (avoids (filename photo_upload))
        [Register fs_ok (Some (utf16 ''Camera'')) None (Some other_upload),
         Delete fs_ok (utf16 ''2''), ListAll]
   \<and> fst (post_register fs_ok (Some (utf16 ''  '')) None (Some photo_upload) one_laptop)
       = Response 400 (Error ''inventory_name is required'')
   \<and> PHOTOS_DIR
        (snd (run [Register fs_ok (Some (utf16 ''Camera'')) None (Some other_upload),
                   Delete fs_ok (utf16 ''2''), ListAll]
               (snd (post_register fs_ok (Some (utf16 ''  '')) None (Some photo_upload) one_laptop))))
        (filename photo_upload)
       = Some (content photo_upload)"
proof -
  have t: "trim (utf16 ''  '') = []" by code_simp
  then have a: "case Some (utf16 ''  '') of None \<Rightarrow> True | Some n \<Rightarrow> trim n = []" by simp
  have b: "list_all (\<lambda>it. photoFilename it \<noteq> Some (filename photo_upload)) (inventory one_laptop)"
    by (simp add: inventory_one_laptop laptop_def)
  have c: "list_all (avoids (filename photo_upload))
        [Register fs_ok (Some (utf16 ''Camera'')) None (Some other_upload),
         Delete fs_ok (utf16 ''2''), ListAll]"
    by code_simp
  from rejected_register_leaves_orphan_photo [OF a b c, of fs_ok None] t b c
  show ?thesis by (simp add: orphan_def)
qed

text \<open>
  C10. The claim as stated, that after the deletion of the item with the greatest id the
  next registration gets that same id, fails when the store has a gap below the greatest
  id: with the ids 1 and 3, deleting item 3 makes the next id 2.
\<close>

theorem deleted_max_id_not_reassigned:
  "reachable gap_store
   \<and> map item_id (inventory gap_store) = [1, 3]
   \<and> fst (delete_inventory_id fs_ok (utf16 ''3'') gap_store) = Response 200 (Message ''Item deleted'')
   \<and> created_id
        (fst (post_register fs_ok (Some (utf16 ''Tablet'')) None None
               (snd (delete_inventory_id fs_ok (utf16 ''3'') gap_store))))
       = Some 2"
  by (simp add: reachable_gap_store inventory_gap_store post_register_def delete_inventory_id_def
      upload_single_def saveInventory_def fs_ok_def generateId_def Let_def sameId_def toJson_def
      truthy_def trim_Tablet trim_Nil Phone_not_Nil Number_3)

text \<open>
  C10, amended. In a state reached from the fresh store, after the item with the greatest
  id \<open>m\<close> is deleted, the next registration gets the greatest remaining id plus one, or 1
  when nothing remains. That id is never above \<open>m\<close>, and it is \<open>m\<close> itself exactly when
  \<open>m = 1\<close> or the store also held an item with id \<open>m - 1\<close>: ids are recomputed from the
  live array and can be assigned again.
\<close>

theorem id_after_deleting_max:
  assumes "reachable s"
    and "findItemById (Number (Some i)) (inventory s) = Some it"
    and "item_id it = Max (set (map item_id (inventory s)))"
    and "write_result e = WriteFulfils"
    and "trim n \<noteq> []"
    and "write_result e' = WriteFulfils"
  shows "created_id (fst (post_register e' (Some n) descr f (snd (delete_inventory_id e i s))))
           = Some (generateId (inventory (snd (delete_inventory_id e i s))))
         \<and> generateId (inventory (snd (delete_inventory_id e i s)))
             = (if inventory (snd (delete_inventory_id e i s)) = [] then 1
                else Max (set (map item_id (inventory (snd (delete_inventory_id e i s))))) + 1)
         \<and> generateId (inventory (snd (delete_inventory_id e i s))) \<le> item_id it
         \<and> (generateId (inventory (snd (delete_inventory_id e i s))) = item_id it
              \<longleftrightarrow> item_id it = 1 \<or> item_id it - 1 \<in> set (map item_id (inventory s)))"
proof -
  let ?s1 = "snd (delete_inventory_id e i s)"
  let ?S = "set (map item_id (inventory s))"
  from reachable_ids_ok [OF assms(1)]
  have dist: "distinct (map item_id (inventory s))" and pos: "\<forall>x \<in> ?S. 0 < x"
    by (simp_all add: ids_ok_def list_all_iff)
  from findItemById_index [OF assms(2)] obtain k where
    k: "findIndex (sameId (Number (Some i))) (inventory s) = Some k" "k < length (inventory s)"
       "inventory s ! k = it" by blast
  from delete_inventory_id_found(2) [OF k(1) assms(4)]
  have inv: "inventory ?s1 = take k (inventory s) @ drop (Suc k) (inventory s)" .
  have ids: "set (map item_id (inventory ?s1)) = ?S - {item_id it}"
    using ids_after_splice [OF dist k(2)] inv k(3) by simp
  have mem: "item_id it \<in> ?S" using k(2,3) by (metis nth_mem image_eqI set_map)
  have le: "\<forall>x \<in> ?S. x \<le> item_id it" using assms(3) by simp
  have a: "created_id (fst (post_register e' (Some n) descr f ?s1))
             = Some (generateId (inventory ?s1))"
    by (rule post_register_created [OF assms(5,6)])
  have b: "generateId (inventory ?s1)
             = (if inventory ?s1 = [] then 1
                else Max (set (map item_id (inventory ?s1))) + 1)"
    by (simp add: generateId_def)
  from generateId_after_removing_max [OF _ mem le pos ids] a b show ?thesis by simp
qed

theorem id_after_deleting_max_witness:
  "reachable one_laptop
   \<and> findItemById (Number (Some (utf16 ''1''))) (inventory one_laptop) = Some laptop
   \<and> item_id laptop = Max (set (map item_id (inventory one_laptop)))
   \<and> write_result fs_ok = WriteFulfils
   \<and> trim (utf16 ''Tablet'') \<noteq> []
   \<and> created_id
        (fst (post_register fs_ok (Some (utf16 ''Tablet'')) None None
               (snd (delete_inventory_id fs_ok (utf16 ''1'') one_laptop))))
       = Some 1"
proof -
  have m: "item_id laptop = Max (set (map item_id (inventory one_laptop)))"
    by (simp add: inventory_one_laptop)
  have w: "write_result fs_ok = WriteFulfils" by (simp add: fs_ok_def)
  have t: "trim (utf16 ''Tablet'') \<noteq> []" by (simp add: trim_Tablet Phone_not_Nil)
  note c = id_after_deleting_max [OF reachable_one_laptop find_laptop m w t w, of None None]
  have "item_id laptop = 1" by (simp add: laptop_def)
  with c have "created_id
        (fst (post_register fs_ok (Some (utf16 ''Tablet'')) None None
               (snd (delete_inventory_id fs_ok (utf16 ''1'') one_laptop))))
       = Some 1" by simp
  with reachable_one_laptop find_laptop m w t show ?thesis by blast
qed


end
